theory Spec2Isabelle
  imports
    Main
    "HOL-Library.Sublist"
    "HOL-Library.Char_ord"
    "HOL-Library.List_Lexorder"
    "HOL-Library.Word"
begin

section \<open>The path-oriented key/value store of guess-who (persistence/pathStore.ts)\<close>

text \<open>
  A shallow embedding of \<^verbatim>\<open>src/guess-who/src/persistence/pathStore.ts\<close>.
  Conventions:
  \<^item> a private function \<^verbatim>\<open>_name\<close> of the source is called \<open>name'\<close> here (an
    identifier cannot start with an underscore); exported functions keep their names;
  \<^item> the IndexedDB object store \<^verbatim>\<open>KeyValue\<close> (key path \<^verbatim>\<open>key\<close>) is the list of its
    records in ascending key order, which is the order in which IndexedDB enumerates them;
  \<^item> every asynchronous function is a function from the store to an error or a result
    together with the store it leaves behind; a rejected promise or a thrown exception is
    \<open>Inl\<close>;
  \<^item> \<^verbatim>\<open>Date.now()\<close> is the argument \<open>now\<close>;
  \<^item> JavaScript \<^verbatim>\<open>null\<close> and \<^verbatim>\<open>undefined\<close> payloads are \<open>None\<close>.
\<close>

subsection \<open>Path codec\<close>

text \<open>
  Modelled from the spec: \<^verbatim>\<open>persistence/pathUtil.ts\<close> (\<^verbatim>\<open>keyToPath\<close>, \<^verbatim>\<open>keyToName\<close>) is not
  among the sources, only its test file is. Section 4.1 of the specification:
  keyToPath: "empty input -> empty string. No / in key -> empty string. Otherwise,
  substring from start through the last / inclusive."
\<close>

definition keyToPath :: "string \<Rightarrow> string" where
  "keyToPath k =
     (if k = [] then []
      else if CHR ''/'' \<notin> set k then []
      else rev (dropWhile (\<lambda>c. c \<noteq> CHR ''/'') (rev k)))"

text \<open>
  Modelled from the spec: \<^verbatim>\<open>keyToName\<close> of the missing \<^verbatim>\<open>pathUtil.ts\<close>. Section 4.1:
  "substring after the last / (or the whole string if no /). A key ending in / yields an
  empty name."
\<close>

definition keyToName :: "string \<Rightarrow> string" where
  "keyToName k =
     (if CHR ''/'' \<notin> set k then k
      else rev (takeWhile (\<lambda>c. c \<noteq> CHR ''/'') (rev k)))"

subsection \<open>Records, errors and configuration\<close>

type_synonym byte = "8 word"

record KeyValueRecord =
  key :: string
  path :: string
  appDataVersion :: int
  mimeType :: string
  lastModified :: int
  "text" :: "string option"
  bytes :: "byte list option"

type_synonym store = "KeyValueRecord list"

text \<open>
  The exceptions of the module:
  \<^item> \<open>TypeError\<close>: a property read on \<^verbatim>\<open>undefined\<close> (\<^verbatim>\<open>record.appDataVersion\<close> in
    \<^verbatim>\<open>_getRecordByKey\<close> when \<^verbatim>\<open>_get\<close> found nothing);
  \<^item> \<open>VersionTooNew\<close>: "Record at ... is v... while app only knows versions up to v...";
  \<^item> \<open>NoUpgradeHandling\<close>: "Record at ... did not have upgrade handling.";
  \<^item> \<open>NoExistingRecord\<close>: "Did not find existing record matching ... key.".
\<close>

datatype error = TypeError | VersionTooNew | NoUpgradeHandling | NoExistingRecord

text \<open>
  \<^verbatim>\<open>APP_DATA_VERSION\<close> and the handlers written into \<^verbatim>\<open>_upgradeRecord\<close> are the module's
  declared modification points. They are the two fields of a configuration, so that the
  theorems hold for every release of the module; \<open>source_config\<close> is the module as it is
  in the repository: version 1 and no handler.
\<close>

record config =
  APP_DATA_VERSION :: int
  upgradeHandlers :: "(KeyValueRecord \<Rightarrow> KeyValueRecord) list"

definition source_config :: config where
  "source_config = \<lparr>APP_DATA_VERSION = 1, upgradeHandlers = []\<rparr>"

text \<open>
  The handler shape of the example in the comment of \<^verbatim>\<open>_upgradeRecord\<close>, for a record
  whose format did not change: \<^verbatim>\<open>if (record.appDataVersion === n) record.appDataVersion = n + 1\<close>.
\<close>

definition bumpVersionFrom :: "int \<Rightarrow> KeyValueRecord \<Rightarrow> KeyValueRecord" where
  "bumpVersionFrom n r = (if appDataVersion r = n then r\<lparr>appDataVersion := n + 1\<rparr> else r)"

definition MIMETYPE_OCTET_STREAM :: string where
  "MIMETYPE_OCTET_STREAM = ''application/octet-stream''"

definition MIMETYPE_PLAIN_TEXT :: string where
  "MIMETYPE_PLAIN_TEXT = ''text/plain''"

subsection \<open>Storage primitives\<close>

text \<open>\<^verbatim>\<open>_get\<close>: \<^verbatim>\<open>objectStore.get(key)\<close>; \<open>None\<close> is the \<^verbatim>\<open>undefined\<close> of a missing key.\<close>

fun get' :: "store \<Rightarrow> string \<Rightarrow> KeyValueRecord option" where
  "get' [] k = None"
| "get' (r # rs) k = (if key r = k then Some r else get' rs k)"

text \<open>
  \<^verbatim>\<open>_put\<close>: \<^verbatim>\<open>objectStore.put(record)\<close>, insert-or-replace under the record's own
  \<^verbatim>\<open>key\<close> field (the store's key path), at its place in the key order.
\<close>

fun put' :: "store \<Rightarrow> KeyValueRecord \<Rightarrow> store" where
  "put' [] r = [r]"
| "put' (x # xs) r =
     (if key r = key x then r # xs
      else if key r < key x then r # x # xs
      else x # put' xs r)"

text \<open>\<^verbatim>\<open>_delete\<close>: \<^verbatim>\<open>objectStore.delete(key)\<close>; deleting a missing key is no error.\<close>

definition delete' :: "store \<Rightarrow> string \<Rightarrow> store" where
  "delete' s k = filter (\<lambda>r. key r \<noteq> k) s"

text \<open>The invariant of an object store: strictly ascending, hence unique, keys.\<close>

definition store_inv :: "store \<Rightarrow> bool" where
  "store_inv s = sorted_wrt (<) (map key s)"

subsection \<open>Versioned read and stamped write\<close>

definition applyHandlers :: "config \<Rightarrow> KeyValueRecord \<Rightarrow> KeyValueRecord" where
  "applyHandlers cfg r = fold (\<lambda>h acc. h acc) (upgradeHandlers cfg) r"

text \<open>
  \<^verbatim>\<open>_upgradeRecord\<close>: the handlers run in the order written, then
  \<^verbatim>\<open>if (record.appDataVersion !== APP_DATA_VERSION) throw ...\<close>.
\<close>

definition upgradeRecord' :: "config \<Rightarrow> KeyValueRecord \<Rightarrow> error + KeyValueRecord" where
  "upgradeRecord' cfg r =
     (let r' = applyHandlers cfg r
      in if appDataVersion r' \<noteq> APP_DATA_VERSION cfg then Inl NoUpgradeHandling else Inr r')"

text \<open>
  \<^verbatim>\<open>_getRecordByKey\<close>. The source reads \<^verbatim>\<open>record.appDataVersion\<close> with no test of
  \<^verbatim>\<open>record\<close>, so a missing key throws a TypeError. The result carries the store, since the
  upgrade path writes the upgraded record back (the source does not await that \<^verbatim>\<open>_put\<close>;
  the model has it done when the function returns).
\<close>

definition getRecordByKey' :: "config \<Rightarrow> store \<Rightarrow> string \<Rightarrow> error + (KeyValueRecord \<times> store)" where
  "getRecordByKey' cfg s k =
     (case get' s k of
        None \<Rightarrow> Inl TypeError
      | Some record \<Rightarrow>
          if appDataVersion record = APP_DATA_VERSION cfg then Inr (record, s)
          else if appDataVersion record > APP_DATA_VERSION cfg then Inl VersionTooNew
          else (case upgradeRecord' cfg record of
                  Inl e \<Rightarrow> Inl e
                | Inr upgraded \<Rightarrow> Inr (upgraded, put' s upgraded)))"

text \<open>The \<^verbatim>\<open>fieldName\<close>/\<^verbatim>\<open>fieldValue\<close> pair of \<^verbatim>\<open>_setFieldValue\<close>: 'text' or 'bytes'.\<close>

datatype fieldValue = TextValue "string option" | BytesValue "byte list option"

text \<open>
  \<^verbatim>\<open>_setFieldValue\<close>. The fallback \<^verbatim>\<open>?? { key }\<close> of the source is taken only when
  \<^verbatim>\<open>_getRecordByKey\<close> resolves to null or undefined; it resolves to a record or rejects,
  so the fallback has no branch here.
\<close>

definition setFieldValue' ::
  "config \<Rightarrow> int \<Rightarrow> store \<Rightarrow> string \<Rightarrow> fieldValue \<Rightarrow> string \<Rightarrow> error + store" where
  "setFieldValue' cfg now s k fv mt =
     (case getRecordByKey' cfg s k of
        Inl e \<Rightarrow> Inl e
      | Inr (record, s1) \<Rightarrow>
          let r1 = (case fv of TextValue t \<Rightarrow> record\<lparr>text := t\<rparr>
                             | BytesValue b \<Rightarrow> record\<lparr>bytes := b\<rparr>);
              r2 = r1\<lparr>path := keyToPath k, appDataVersion := APP_DATA_VERSION cfg,
                      mimeType := mt, lastModified := now\<rparr>
          in Inr (put' s1 r2))"

definition getText :: "config \<Rightarrow> store \<Rightarrow> string \<Rightarrow> error + (string option \<times> store)" where
  "getText cfg s k =
     (case getRecordByKey' cfg s k of
        Inl e \<Rightarrow> Inl e
      | Inr (record, s1) \<Rightarrow> Inr (text record, s1))"

definition getBytes :: "config \<Rightarrow> store \<Rightarrow> string \<Rightarrow> error + (byte list option \<times> store)" where
  "getBytes cfg s k =
     (case getRecordByKey' cfg s k of
        Inl e \<Rightarrow> Inl e
      | Inr (record, s1) \<Rightarrow> Inr (bytes record, s1))"

definition setText ::
  "config \<Rightarrow> int \<Rightarrow> store \<Rightarrow> string \<Rightarrow> string option \<Rightarrow> string \<Rightarrow> error + store" where
  "setText cfg now s k t mt = setFieldValue' cfg now s k (TextValue t) mt"

definition setBytes ::
  "config \<Rightarrow> int \<Rightarrow> store \<Rightarrow> string \<Rightarrow> byte list option \<Rightarrow> string \<Rightarrow> error + store" where
  "setBytes cfg now s k b mt = setFieldValue' cfg now s k (BytesValue b) mt"

subsection \<open>Queries and bulk deletion\<close>

definition getAllKeys :: "store \<Rightarrow> string list" where
  "getAllKeys s = map key s"

text \<open>The path index: records whose \<^verbatim>\<open>path\<close> field equals the argument.\<close>

definition getAllKeysAtPath :: "store \<Rightarrow> string \<Rightarrow> string list" where
  "getAllKeysAtPath s p = map key (filter (\<lambda>r. path r = p) s)"

definition getAllValuesAtPath :: "store \<Rightarrow> string \<Rightarrow> KeyValueRecord list" where
  "getAllValuesAtPath s p = filter (\<lambda>r. path r = p) s"

text \<open>\<^verbatim>\<open>getValuesForKeys\<close>: one \<^verbatim>\<open>objectStore.get\<close> per key, a miss is \<^verbatim>\<open>undefined\<close>.\<close>

definition getValuesForKeys :: "store \<Rightarrow> string list \<Rightarrow> KeyValueRecord option list" where
  "getValuesForKeys s keys = map (\<lambda>k. get' s k) keys"

definition deleteAllKeys :: "store \<Rightarrow> string list \<Rightarrow> store" where
  "deleteAllKeys s keys = fold (\<lambda>k acc. delete' acc k) keys s"

definition deleteAllKeysAtPathExcept :: "store \<Rightarrow> string \<Rightarrow> string list \<Rightarrow> store" where
  "deleteAllKeysAtPathExcept s p exceptKeys =
     (let keys = getAllKeysAtPath s p;
          keysToDelete = filter (\<lambda>k. k \<notin> set exceptKeys) keys
      in if keysToDelete = [] then s else deleteAllKeys s keysToDelete)"

subsection \<open>Renaming\<close>

text \<open>
  Modelled from the spec: \<^verbatim>\<open>common/regExUtil\<close> (\<^verbatim>\<open>escapeRegexCharacters\<close>,
  \<^verbatim>\<open>createNonGlobalRegex\<close>) is not among the sources. Section 6 of the specification:
  "a regex-normalization helper that strips global-match state flags so repeated .test()
  calls are stateless, and an escape helper for embedding arbitrary strings as literal
  regex fragments". \<open>testLiteralThenAny lit\<close> is therefore the \<^verbatim>\<open>test\<close> of the
  expression \<^verbatim>\<open>new RegExp(`${escaped}.*`, '')\<close> that \<^verbatim>\<open>_renamePath\<close> builds: the expression
  has no anchor, so the literal may start at any position of the key, and \<^verbatim>\<open>.*\<close> also
  matches the empty rest.
\<close>

fun testLiteralThenAny :: "string \<Rightarrow> string \<Rightarrow> bool" where
  "testLiteralThenAny lit [] = (lit = [])"
| "testLiteralThenAny lit (c # cs) = (prefix lit (c # cs) \<or> testLiteralThenAny lit cs)"

text \<open>\<^verbatim>\<open>getAllKeysMatchingRegex\<close>, the regular expression given by its \<^verbatim>\<open>test\<close>.\<close>

definition getAllKeysMatchingRegex :: "store \<Rightarrow> (string \<Rightarrow> bool) \<Rightarrow> string list" where
  "getAllKeysMatchingRegex s regexTest = filter regexTest (getAllKeys s)"

text \<open>\<^verbatim>\<open>_changePathOfKey\<close>: \<^verbatim>\<open>nextPath + key.slice(path.length)\<close>.\<close>

definition changePathOfKey' :: "string \<Rightarrow> string \<Rightarrow> string \<Rightarrow> string" where
  "changePathOfKey' k p nextPath = nextPath @ drop (length p) k"

text \<open>
  \<^verbatim>\<open>_replaceRecordUsingNewKey\<close> up to its \<^verbatim>\<open>_put\<close>: the awaited \<^verbatim>\<open>_get\<close>, the
  \<^verbatim>\<open>throw\<close> when nothing is stored at the key, and the assignments to
  \<^verbatim>\<open>key\<close>, \<^verbatim>\<open>path\<close> and (when asked) \<^verbatim>\<open>lastModified\<close>. The result is the record
  that the function goes on to put.
\<close>

definition replaceRecordUsingNewKey_get' ::
  "int \<Rightarrow> store \<Rightarrow> string \<Rightarrow> string \<Rightarrow> bool \<Rightarrow> error + KeyValueRecord" where
  "replaceRecordUsingNewKey_get' now s k nextKey updateLastModified =
     (case get' s k of
        None \<Rightarrow> Inl NoExistingRecord
      | Some record \<Rightarrow>
          let r1 = record\<lparr>key := nextKey, path := keyToPath nextKey\<rparr>;
              r2 = (if updateLastModified then r1\<lparr>lastModified := now\<rparr> else r1)
          in Inr r2)"

text \<open>
  \<^verbatim>\<open>_replaceRecordUsingNewKey\<close> awaited on its own, as \<open>renameKey\<close> calls it: the get, then
  the put of the record under its new key, then the delete of the old key.
\<close>

definition replaceRecordUsingNewKey' ::
  "int \<Rightarrow> store \<Rightarrow> string \<Rightarrow> string \<Rightarrow> bool \<Rightarrow> error + store" where
  "replaceRecordUsingNewKey' now s k nextKey updateLastModified =
     (case replaceRecordUsingNewKey_get' now s k nextKey updateLastModified of
        Inl e \<Rightarrow> Inl e
      | Inr record \<Rightarrow> Inr (delete' (put' s record) k))"

text \<open>
  The loop of \<^verbatim>\<open>_renamePath\<close>. It calls \<^verbatim>\<open>_replaceRecordUsingNewKey\<close> for every key and
  only collects the promises; \<^verbatim>\<open>Promise.all\<close> awaits them afterwards. Each call runs at
  once up to its first \<^verbatim>\<open>await\<close>, so every \<^verbatim>\<open>_get\<close> is requested before any call goes
  on, and reads the store as \<^verbatim>\<open>_renamePath\<close> found it. \<open>renamePath_gets\<close> is that first
  part of all the calls, in the order of the key list, none updating \<^verbatim>\<open>lastModified\<close>;
  a call that finds nothing at its key rejects, and with it \<^verbatim>\<open>Promise.all\<close>.
\<close>

fun renamePath_gets ::
  "int \<Rightarrow> store \<Rightarrow> string \<Rightarrow> string \<Rightarrow> string list \<Rightarrow> error + KeyValueRecord list" where
  "renamePath_gets now s currentPath nextPath [] = Inr []"
| "renamePath_gets now s currentPath nextPath (descendentKey # ks) =
     (case replaceRecordUsingNewKey_get' now s descendentKey
             (changePathOfKey' descendentKey currentPath nextPath) False of
        Inl e \<Rightarrow> Inl e
      | Inr record \<Rightarrow>
          (case renamePath_gets now s currentPath nextPath ks of
             Inl e \<Rightarrow> Inl e
           | Inr records \<Rightarrow> Inr (record # records)))"

text \<open>
  \<^verbatim>\<open>_renamePath\<close>. A call makes the transaction of its \<^verbatim>\<open>_put\<close> when its get has completed,
  and the transaction of its \<^verbatim>\<open>_delete\<close> when its put has completed. IndexedDB starts the
  read-write transactions on an object store in the order in which they were made, and
  none before the read-only transactions made earlier are done. So the first put starts
  after the last get, when every call has made its put; and every delete, made after a put
  has completed, comes after all the puts. The store goes through the gets, then the puts
  in the order of the key list, then the deletes in the order of the key list.
\<close>

definition renamePath' :: "int \<Rightarrow> store \<Rightarrow> string \<Rightarrow> string \<Rightarrow> error + store" where
  "renamePath' now s currentPath nextPath =
     (let descendentKeys = getAllKeysMatchingRegex s (testLiteralThenAny currentPath)
      in case renamePath_gets now s currentPath nextPath descendentKeys of
           Inl e \<Rightarrow> Inl e
         | Inr records \<Rightarrow>
             Inr (fold (\<lambda>k acc. delete' acc k) descendentKeys
                    (fold (\<lambda>record acc. put' acc record) records s)))"

definition renamePath :: "int \<Rightarrow> store \<Rightarrow> string \<Rightarrow> string \<Rightarrow> error + store" where
  "renamePath now s currentPath nextPath = renamePath' now s currentPath nextPath"

text \<open>
  \<open>renameKey\<close> awaits the replacement of the one record before it starts the cascade.
\<close>

definition renameKey :: "int \<Rightarrow> store \<Rightarrow> string \<Rightarrow> string \<Rightarrow> error + store" where
  "renameKey now s currentKey nextKey =
     (case replaceRecordUsingNewKey' now s currentKey nextKey True of
        Inl e \<Rightarrow> Inl e
      | Inr s1 \<Rightarrow> renamePath' now s1 (currentKey @ ''/'') (nextKey @ ''/''))"

subsection \<open>Example data\<close>

text \<open>
  A text record as \<^verbatim>\<open>setText\<close> leaves it: the path derived from the key, the plain-text
  MIME type, no bytes.
\<close>

definition textRecord :: "string \<Rightarrow> int \<Rightarrow> int \<Rightarrow> string \<Rightarrow> KeyValueRecord" where
  "textRecord k v lm t =
     \<lparr>key = k, path = keyToPath k, appDataVersion = v, mimeType = MIMETYPE_PLAIN_TEXT,
      lastModified = lm, text = Some t, bytes = None\<rparr>"

subsection \<open>Theorems: path codec\<close>

text \<open>The cases of \<^verbatim>\<open>persistence/__tests__/pathUtil.test.ts\<close> hold of the two definitions.\<close>

lemma keyToPath_test_cases:
  "keyToPath [] = []" "keyToPath ''dog'' = []" "keyToPath ''/dog'' = ''/''"
  "keyToPath ''/pets/dog'' = ''/pets/''" "keyToPath ''/pets/furry/dog'' = ''/pets/furry/''"
  by (simp_all add: keyToPath_def)

lemma keyToName_test_cases:
  "keyToName [] = []" "keyToName ''/pets/furry/'' = []" "keyToName ''dog'' = ''dog''"
  "keyToName ''/pets/furry/dog'' = ''dog''"
  by (simp_all add: keyToName_def)

lemma rev_dropWhile_takeWhile:
  "rev (dropWhile P (rev k)) @ rev (takeWhile P (rev k)) = k"
proof -
  have "rev (takeWhile P (rev k) @ dropWhile P (rev k)) = k"
    by simp
  then show ?thesis
    by (simp only: rev_append)
qed

text \<open>
  C9. For every key \<open>k\<close>: if \<open>k\<close> contains a slash, \<open>keyToPath k\<close> followed by
  \<open>keyToName k\<close> is \<open>k\<close>; if it contains none, \<open>keyToPath k\<close> is empty and
  \<open>keyToName k\<close> is \<open>k\<close>.
\<close>

theorem keyToPath_keyToName:
  "(CHR ''/'' \<in> set k \<longrightarrow> keyToPath k @ keyToName k = k) \<and>
   (CHR ''/'' \<notin> set k \<longrightarrow> keyToPath k = [] \<and> keyToName k = k)"
proof (intro conjI impI)
  assume slash: "CHR ''/'' \<in> set k"
  then have "k \<noteq> []" by auto
  with slash show "keyToPath k @ keyToName k = k"
    by (simp add: keyToPath_def keyToName_def rev_dropWhile_takeWhile)
next
  assume "CHR ''/'' \<notin> set k"
  then show "keyToPath k = []" by (simp add: keyToPath_def)
next
  assume "CHR ''/'' \<notin> set k"
  then show "keyToName k = k" by (simp add: keyToName_def)
qed

theorem keyToPath_keyToName_witness:
  "CHR ''/'' \<in> set ''/pets/furry/dog'' \<and>
   keyToPath ''/pets/furry/dog'' @ keyToName ''/pets/furry/dog'' = ''/pets/furry/dog'' \<and>
   CHR ''/'' \<notin> set ''dog'' \<and> keyToPath ''dog'' = [] \<and> keyToName ''dog'' = ''dog''"
  using keyToPath_keyToName [of "''/pets/furry/dog''"] keyToPath_keyToName [of "''dog''"]
  by simp

subsection \<open>Lemmas: the storage primitives\<close>

lemma get'_put': "get' (put' s r) k = (if k = key r then Some r else get' s k)"
  by (induction s) auto

lemma get'_delete': "get' (delete' s k) k' = (if k' = k then None else get' s k')"
  by (induction s) (auto simp: delete'_def)

lemma get'_key: "get' s k = Some r \<Longrightarrow> key r = k"
  by (induction s) (auto split: if_splits)

lemma getRecordByKey'_absent: "get' s k = None \<Longrightarrow> getRecordByKey' cfg s k = Inl TypeError"
  by (simp add: getRecordByKey'_def)

lemma upgradeRecord'_Inr:
  "upgradeRecord' cfg r = Inr u \<Longrightarrow>
     u = applyHandlers cfg r \<and> appDataVersion u = APP_DATA_VERSION cfg"
  by (auto simp: upgradeRecord'_def Let_def split: if_splits)

subsection \<open>Theorems: reads and writes of a missing key\<close>

text \<open>
  C1 (the code departs from the claim). The claim: for a key with no stored record,
  \<open>setText\<close> succeeds and creates the record. The code: \<^verbatim>\<open>_setFieldValue\<close> first awaits
  \<^verbatim>\<open>_getRecordByKey\<close>, which reads \<^verbatim>\<open>record.appDataVersion\<close> of the \<^verbatim>\<open>undefined\<close> that
  \<^verbatim>\<open>_get\<close> resolves to, so the write is rejected with a TypeError and nothing is stored;
  the fallback \<^verbatim>\<open>?? { key }\<close> is never reached.
\<close>

theorem setText_absent_key_rejects:
  "get' s k = None \<Longrightarrow>
     setText cfg now s k v mt = Inl TypeError \<and> setBytes cfg now s k b mt' = Inl TypeError"
  by (simp add: setText_def setBytes_def setFieldValue'_def getRecordByKey'_absent)

theorem setText_absent_key_rejects_witness:
  "get' [] ''/greeting'' = None \<and>
   setText source_config 1000 [] ''/greeting'' (Some ''hello'') MIMETYPE_PLAIN_TEXT = Inl TypeError \<and>
   setBytes source_config 1000 [] ''/greeting'' (Some [1, 2]) MIMETYPE_OCTET_STREAM = Inl TypeError"
  using setText_absent_key_rejects
    [where s = "[]" and k = "''/greeting''" and cfg = source_config and now = 1000
       and v = "Some ''hello''" and b = "Some [1, 2]" and mt = MIMETYPE_PLAIN_TEXT
       and mt' = MIMETYPE_OCTET_STREAM]
  by simp

text \<open>
  C2 (the code departs from the claim). The claim: for a key with no stored record,
  \<open>getText\<close> and \<open>getBytes\<close> return null. The code: both await \<^verbatim>\<open>_getRecordByKey\<close>, which
  throws the TypeError above before \<^verbatim>\<open>record?.text ?? null\<close> is evaluated, so the read is a
  rejected operation.
\<close>

theorem getText_absent_key_rejects:
  "get' s k = None \<Longrightarrow>
     getText cfg s k = Inl TypeError \<and> getBytes cfg s k = Inl TypeError"
  by (simp add: getText_def getBytes_def getRecordByKey'_absent)

theorem getText_absent_key_rejects_witness:
  "get' [] ''/greeting'' = None \<and>
   getText source_config [] ''/greeting'' = Inl TypeError \<and>
   getBytes source_config [] ''/greeting'' = Inl TypeError"
  using getText_absent_key_rejects [of "[]" "''/greeting''" source_config]
  by simp

subsection \<open>Theorems: the version policy\<close>

text \<open>
  The version policy on the one path that has it, \<^verbatim>\<open>_getRecordByKey\<close> (the read of
  \<open>getText\<close>, \<open>getBytes\<close> and of a write): when the version of the stored record equals
  the expected one the record is returned as it is and the store is untouched; when it is
  greater the read fails with the version-too-new error; when it is less the record goes
  through \<^verbatim>\<open>_upgradeRecord\<close>, and either the upgrader's error is the read's error, or the
  upgraded record is put into the store (where it is then found under its key), is at the
  expected version, and is the record returned.
\<close>

theorem getRecordByKey_version_policy:
  assumes "get' s k = Some r"
  shows "(appDataVersion r = APP_DATA_VERSION cfg \<longrightarrow> getRecordByKey' cfg s k = Inr (r, s)) \<and>
         (appDataVersion r > APP_DATA_VERSION cfg \<longrightarrow> getRecordByKey' cfg s k = Inl VersionTooNew) \<and>
         (appDataVersion r < APP_DATA_VERSION cfg \<longrightarrow>
            (case upgradeRecord' cfg r of
               Inl e \<Rightarrow> getRecordByKey' cfg s k = Inl e
             | Inr upgraded \<Rightarrow>
                 getRecordByKey' cfg s k = Inr (upgraded, put' s upgraded) \<and>
                 get' (put' s upgraded) (key upgraded) = Some upgraded \<and>
                 appDataVersion upgraded = APP_DATA_VERSION cfg))"
  using assms
  by (auto simp: getRecordByKey'_def get'_put' split: sum.splits dest: upgradeRecord'_Inr)

theorem getRecordByKey_version_policy_witness:
  "get' [textRecord ''/a'' 1 10 ''x'', textRecord ''/b'' 2 20 ''y'', textRecord ''/c'' 3 30 ''z''] ''/a''
     = Some (textRecord ''/a'' 1 10 ''x'') \<and>
   getRecordByKey' \<lparr>APP_DATA_VERSION = 2, upgradeHandlers = [bumpVersionFrom 1]\<rparr>
     [textRecord ''/a'' 1 10 ''x'', textRecord ''/b'' 2 20 ''y'', textRecord ''/c'' 3 30 ''z''] ''/a''
     = Inr (textRecord ''/a'' 2 10 ''x'',
            [textRecord ''/a'' 2 10 ''x'', textRecord ''/b'' 2 20 ''y'', textRecord ''/c'' 3 30 ''z'']) \<and>
   getRecordByKey' \<lparr>APP_DATA_VERSION = 2, upgradeHandlers = [bumpVersionFrom 1]\<rparr>
     [textRecord ''/a'' 1 10 ''x'', textRecord ''/b'' 2 20 ''y'', textRecord ''/c'' 3 30 ''z''] ''/b''
     = Inr (textRecord ''/b'' 2 20 ''y'',
            [textRecord ''/a'' 1 10 ''x'', textRecord ''/b'' 2 20 ''y'', textRecord ''/c'' 3 30 ''z'']) \<and>
   getRecordByKey' \<lparr>APP_DATA_VERSION = 2, upgradeHandlers = [bumpVersionFrom 1]\<rparr>
     [textRecord ''/a'' 1 10 ''x'', textRecord ''/b'' 2 20 ''y'', textRecord ''/c'' 3 30 ''z''] ''/c''
     = Inl VersionTooNew"
  using getRecordByKey_version_policy
    [where s = "[textRecord ''/a'' 1 10 ''x'', textRecord ''/b'' 2 20 ''y'', textRecord ''/c'' 3 30 ''z'']"
       and k = "''/a''" and r = "textRecord ''/a'' 1 10 ''x''"
       and cfg = "\<lparr>APP_DATA_VERSION = 2, upgradeHandlers = [bumpVersionFrom 1]\<rparr>"]
    getRecordByKey_version_policy
    [where s = "[textRecord ''/a'' 1 10 ''x'', textRecord ''/b'' 2 20 ''y'', textRecord ''/c'' 3 30 ''z'']"
       and k = "''/b''" and r = "textRecord ''/b'' 2 20 ''y''"
       and cfg = "\<lparr>APP_DATA_VERSION = 2, upgradeHandlers = [bumpVersionFrom 1]\<rparr>"]
    getRecordByKey_version_policy
    [where s = "[textRecord ''/a'' 1 10 ''x'', textRecord ''/b'' 2 20 ''y'', textRecord ''/c'' 3 30 ''z'']"
       and k = "''/c''" and r = "textRecord ''/c'' 3 30 ''z''"
       and cfg = "\<lparr>APP_DATA_VERSION = 2, upgradeHandlers = [bumpVersionFrom 1]\<rparr>"]
  by (simp add: textRecord_def upgradeRecord'_def applyHandlers_def bumpVersionFrom_def)

text \<open>
  C3 (the code departs from the claim). The claim: the three-way version policy holds
  for every stored record that the store reads. The code: the policy is written into
  \<^verbatim>\<open>_getRecordByKey\<close> only, and \<open>getAllValuesAtPath\<close> and \<open>getValuesForKeys\<close> read the
  object store without it. With the module as it is (expected version 1) and a store
  holding a record of version 3 and one of version 0, both bulk reads return the two
  records as they are stored: no version-too-new failure for the first, no upgrader and
  nothing persisted for the second. Read through \<^verbatim>\<open>_getRecordByKey\<close>, the first fails as
  too new and the second goes to the upgrader, which has no handler and fails.
\<close>

theorem bulk_reads_bypass_version_policy:
  "getAllValuesAtPath
      [textRecord ''/docs/new'' 3 20 ''y'', textRecord ''/docs/old'' 0 10 ''x''] ''/docs/''
     = [textRecord ''/docs/new'' 3 20 ''y'', textRecord ''/docs/old'' 0 10 ''x''] \<and>
   getValuesForKeys
      [textRecord ''/docs/new'' 3 20 ''y'', textRecord ''/docs/old'' 0 10 ''x'']
      [''/docs/old'', ''/docs/new'']
     = [Some (textRecord ''/docs/old'' 0 10 ''x''), Some (textRecord ''/docs/new'' 3 20 ''y'')] \<and>
   APP_DATA_VERSION source_config < appDataVersion (textRecord ''/docs/new'' 3 20 ''y'') \<and>
   appDataVersion (textRecord ''/docs/old'' 0 10 ''x'') < APP_DATA_VERSION source_config \<and>
   getRecordByKey' source_config
      [textRecord ''/docs/new'' 3 20 ''y'', textRecord ''/docs/old'' 0 10 ''x''] ''/docs/new''
     = Inl VersionTooNew \<and>
   getRecordByKey' source_config
      [textRecord ''/docs/new'' 3 20 ''y'', textRecord ''/docs/old'' 0 10 ''x''] ''/docs/old''
     = Inl NoUpgradeHandling"
  by (simp add: getAllValuesAtPath_def getValuesForKeys_def textRecord_def keyToPath_def
        source_config_def getRecordByKey'_def upgradeRecord'_def applyHandlers_def)



text \<open>
  C4 (the code departs from the claim). The claim: every record a read operation returns
  is at the expected version, or the read fails. The code: \<open>getAllValuesAtPath\<close> and
  \<open>getValuesForKeys\<close> take the records from the object store directly, not through
  \<^verbatim>\<open>_getRecordByKey\<close>. With the module as it is (expected version 1), a stored record of
  version 2 is returned by both as it is, while \<open>getText\<close> on the same key fails.
\<close>

theorem bulk_reads_skip_version_check:
  "getAllValuesAtPath [textRecord ''/docs/report'' 2 10 ''x''] ''/docs/''
     = [textRecord ''/docs/report'' 2 10 ''x''] \<and>
   getValuesForKeys [textRecord ''/docs/report'' 2 10 ''x''] [''/docs/report'']
     = [Some (textRecord ''/docs/report'' 2 10 ''x'')] \<and>
   appDataVersion (textRecord ''/docs/report'' 2 10 ''x'') \<noteq> APP_DATA_VERSION source_config \<and>
   getText source_config [textRecord ''/docs/report'' 2 10 ''x''] ''/docs/report'' = Inl VersionTooNew"
  by (simp add: getAllValuesAtPath_def getValuesForKeys_def textRecord_def keyToPath_def
        source_config_def getText_def getRecordByKey'_def)

subsection \<open>Theorems: the modification time of a write\<close>

text \<open>
  The claim C8 as it is written fails: a write whose clock reading equals the stored
  \<^verbatim>\<open>lastModified\<close> (a second write in the same millisecond) succeeds and leaves
  \<^verbatim>\<open>lastModified\<close> as it was.
\<close>

theorem write_in_same_millisecond_counterexample:
  "setText source_config 5 [textRecord ''/k'' 1 5 ''a''] ''/k'' (Some ''b'') MIMETYPE_PLAIN_TEXT
     = Inr [textRecord ''/k'' 1 5 ''b''] \<and>
   \<not> lastModified (textRecord ''/k'' 1 5 ''a'') < lastModified (textRecord ''/k'' 1 5 ''b'')"
  by (simp add: setText_def setFieldValue'_def getRecordByKey'_def source_config_def textRecord_def
        keyToPath_def)

lemma applyHandlers_key:
  assumes "\<forall>h\<in>set (upgradeHandlers cfg). \<forall>r. key (h r) = key r"
  shows "key (applyHandlers cfg r) = key r"
proof -
  have "\<forall>h\<in>set hs. \<forall>r. key (h r) = key r \<Longrightarrow> key (fold (\<lambda>h acc. h acc) hs r) = key r" for hs
    by (induction hs arbitrary: r) auto
  with assms show ?thesis
    by (simp add: applyHandlers_def)
qed

lemma getRecordByKey'_Inr_key:
  assumes "\<forall>h\<in>set (upgradeHandlers cfg). \<forall>r. key (h r) = key r"
    and "getRecordByKey' cfg s k = Inr (r, s1)"
  shows "key r = k \<and> get' s k \<noteq> None"
  using assms(2) applyHandlers_key [OF assms(1)]
  by (auto simp: getRecordByKey'_def upgradeRecord'_def Let_def
           split: option.splits if_splits dest: get'_key)

text \<open>
  C8, amended. A successful \<open>setText\<close> or \<open>setBytes\<close> on a key (with upgrade handlers
  that leave the key of a record alone) finds a record stored at the key and leaves one
  there whose \<^verbatim>\<open>lastModified\<close> is the clock reading of the write; so the new value is
  strictly greater than the previous one exactly when the clock reading is.
\<close>

theorem write_stamps_clock_reading:
  assumes hs: "\<forall>h\<in>set (upgradeHandlers cfg). \<forall>r. key (h r) = key r"
    and ok: "setText cfg now s k t mt = Inr s' \<or> setBytes cfg now s k b mt = Inr s'"
  shows "\<exists>old new. get' s k = Some old \<and> get' s' k = Some new \<and> lastModified new = now \<and>
           (lastModified old < lastModified new \<longleftrightarrow> lastModified old < now)"
proof -
  from ok obtain fv where "setFieldValue' cfg now s k fv mt = Inr s'"
    by (auto simp: setText_def setBytes_def)
  then obtain r s1 where g: "getRecordByKey' cfg s k = Inr (r, s1)"
    and s': "s' = put' s1
        ((case fv of TextValue t \<Rightarrow> r\<lparr>text := t\<rparr> | BytesValue b \<Rightarrow> r\<lparr>bytes := b\<rparr>)
           \<lparr>path := keyToPath k, appDataVersion := APP_DATA_VERSION cfg,
            mimeType := mt, lastModified := now\<rparr>)"
    by (auto simp: setFieldValue'_def Let_def split: sum.splits)
  from getRecordByKey'_Inr_key [OF hs g] obtain old where "key r = k" and "get' s k = Some old"
    by auto
  then show ?thesis
    by (cases fv) (simp_all add: s' get'_put')
qed

theorem write_stamps_clock_reading_witness:
  "setText source_config 7 [textRecord ''/k'' 1 5 ''a''] ''/k'' (Some ''b'') MIMETYPE_PLAIN_TEXT
     = Inr [textRecord ''/k'' 1 7 ''b''] \<and>
   (\<exists>old new. get' [textRecord ''/k'' 1 5 ''a''] ''/k'' = Some old \<and>
      get' [textRecord ''/k'' 1 7 ''b''] ''/k'' = Some new \<and> lastModified new = 7 \<and>
      (lastModified old < lastModified new \<longleftrightarrow> lastModified old < 7))"
proof -
  have run: "setText source_config 7 [textRecord ''/k'' 1 5 ''a''] ''/k'' (Some ''b'') MIMETYPE_PLAIN_TEXT
     = Inr [textRecord ''/k'' 1 7 ''b'']"
    by (simp add: setText_def setFieldValue'_def getRecordByKey'_def source_config_def
        textRecord_def keyToPath_def)
  have hs: "\<forall>h\<in>set (upgradeHandlers source_config). \<forall>r. key (h r) = key r"
    by (simp add: source_config_def)
  from write_stamps_clock_reading [OF hs disjI1, OF run] run show ?thesis
    by simp
qed

subsection \<open>Theorems: renaming a path\<close>

text \<open>
  C6 (the code departs from the claim). The claim: \<open>renamePath\<close> rewrites exactly the
  keys that have \<open>currentPath\<close> as a prefix and leaves every other key unchanged. The code:
  the regular expression of \<^verbatim>\<open>_renamePath\<close> has no anchor, so a key that contains
  \<open>currentPath\<close> anywhere is selected, and \<^verbatim>\<open>_changePathOfKey\<close> then cuts its first
  \<^verbatim>\<open>path.length\<close> characters off, whatever they are. The key \<^verbatim>\<open>/x/a/b\<close> does not have
  the prefix \<^verbatim>\<open>/a/b\<close>, and renaming \<^verbatim>\<open>/a/b\<close> to \<^verbatim>\<open>/a/z\<close> turns it into \<^verbatim>\<open>/a/z/b\<close>.
\<close>

theorem renamePath_rewrites_key_without_the_prefix:
  "\<not> prefix ''/a/b'' ''/x/a/b'' \<and>
   renamePath 0 [textRecord ''/x/a/b'' 1 10 ''x''] ''/a/b'' ''/a/z''
     = Inr [textRecord ''/a/z/b'' 1 10 ''x'']"
  by (simp add: renamePath_def renamePath'_def getAllKeysMatchingRegex_def getAllKeys_def
        textRecord_def replaceRecordUsingNewKey_get'_def changePathOfKey'_def delete'_def
        keyToPath_def)

subsection \<open>Lemmas: the store invariant\<close>

lemma set_put': "x \<in> set (put' s r) \<Longrightarrow> x = r \<or> x \<in> set s"
  by (induction s) (auto split: if_splits)

lemma store_inv_put': "store_inv s \<Longrightarrow> store_inv (put' s r)"
  unfolding store_inv_def
proof (induction s)
  case Nil
  then show ?case by simp
next
  case (Cons x xs)
  then show ?case
    by (auto dest: set_put')
qed

lemma store_inv_delete': "store_inv s \<Longrightarrow> store_inv (delete' s k)"
proof -
  assume "store_inv s"
  moreover have "map key (filter (\<lambda>r. key r \<noteq> k) s) = filter (\<lambda>x. x \<noteq> k) (map key s)"
    by (simp add: filter_map comp_def)
  ultimately show ?thesis
    by (simp add: store_inv_def delete'_def sorted_wrt_filter)
qed

lemma store_inv_distinct: "store_inv s \<Longrightarrow> distinct (map key s)"
  by (simp add: store_inv_def strict_sorted_iff)

lemma get'_mem: "r \<in> set s \<Longrightarrow> get' s (key r) \<noteq> None"
  by (induction s) auto

lemma get'_Some_mem: "get' s k = Some r \<Longrightarrow> r \<in> set s"
  by (induction s) (auto split: if_splits)

lemma store_inv_get': "store_inv s \<Longrightarrow> r \<in> set s \<Longrightarrow> get' s (key r) = Some r"
proof -
  assume inv: "store_inv s" and mem: "r \<in> set s"
  from mem obtain r' where g: "get' s (key r) = Some r'"
    using get'_mem by fastforce
  then have "r' \<in> set s" and "key r' = key r"
    by (auto dest: get'_Some_mem get'_key)
  with store_inv_distinct [OF inv] mem have "r' = r"
    by (meson distinct_map inj_onD)
  with g show ?thesis by simp
qed

lemma get'_absent_iff: "get' s k = None \<longleftrightarrow> k \<notin> set (map key s)"
  by (induction s) auto

lemma get'_filter:
  assumes "store_inv s"
  shows "get' (filter P s) k =
           (case get' s k of None \<Rightarrow> None | Some r \<Rightarrow> if P r then Some r else None)"
  using assms
proof (induction s)
  case Nil
  then show ?case by simp
next
  case (Cons x xs)
  then have inv': "store_inv xs" and fresh: "key x \<notin> set (map key xs)"
    by (auto simp: store_inv_def)
  from fresh have "key x \<notin> set (map key (filter P xs))"
    by auto
  then have gone: "get' (filter P xs) (key x) = None"
    using get'_absent_iff by blast
  show ?case
    using Cons.IH [OF inv'] gone by auto
qed

lemma deleteAllKeys_filter: "deleteAllKeys s ks = filter (\<lambda>r. key r \<notin> set ks) s"
  unfolding deleteAllKeys_def
proof (induction ks arbitrary: s)
  case Nil
  then show ?case by simp
next
  case (Cons k ks)
  show ?case
    by (simp add: Cons.IH) (simp add: delete'_def conj_commute)
qed

subsection \<open>Theorems: bulk deletion\<close>

text \<open>
  C10. On a store with unique keys, \<open>deleteAllKeysAtPathExcept p exceptKeys\<close> always
  returns, and the store it leaves is the old one without the records whose \<^verbatim>\<open>path\<close>
  field is \<open>p\<close> and whose key is not in \<open>exceptKeys\<close>: those keys are no longer found,
  and every other key is found with the record it had, all fields the same.
\<close>

theorem deleteAllKeysAtPathExcept_frame:
  assumes inv: "store_inv s"
  shows "deleteAllKeysAtPathExcept s p exceptKeys
           = filter (\<lambda>r. \<not> (path r = p \<and> key r \<notin> set exceptKeys)) s \<and>
         (\<forall>k. get' (deleteAllKeysAtPathExcept s p exceptKeys) k =
            (case get' s k of
               None \<Rightarrow> None
             | Some r \<Rightarrow> if path r = p \<and> k \<notin> set exceptKeys then None else Some r))"
proof -
  let ?doomed = "\<lambda>r. path r = p \<and> key r \<notin> set exceptKeys"
  let ?ks = "filter (\<lambda>k. k \<notin> set exceptKeys) (getAllKeysAtPath s p)"
  have ks: "set ?ks = key ` {r \<in> set s. ?doomed r}"
    by (auto simp: getAllKeysAtPath_def)
  have same: "key r \<in> set ?ks \<longleftrightarrow> ?doomed r" if "r \<in> set s" for r
  proof
    assume "key r \<in> set ?ks"
    then obtain r' where r': "r' \<in> set s" "?doomed r'" "key r' = key r"
      unfolding ks by auto
    from store_inv_get' [OF inv r'(1)] store_inv_get' [OF inv that] r'(3) have "r' = r"
      by (metis option.inject)
    with r'(2) show "?doomed r" by blast
  next
    assume "?doomed r"
    with that show "key r \<in> set ?ks"
      unfolding ks by blast
  qed
  have del: "deleteAllKeys s ?ks = filter (\<lambda>r. \<not> ?doomed r) s"
    unfolding deleteAllKeys_filter
    by (rule filter_cong) (use same in auto)
  have whole: "deleteAllKeysAtPathExcept s p exceptKeys = filter (\<lambda>r. \<not> ?doomed r) s"
  proof (cases "?ks = []")
    case True
    then have "\<forall>r\<in>set s. \<not> ?doomed r"
      using same by (metis empty_iff list.set(1))
    then have "filter (\<lambda>r. \<not> ?doomed r) s = s"
      by (simp add: filter_id_conv)
    with True show ?thesis
      by (simp add: deleteAllKeysAtPathExcept_def Let_def)
  next
    case False
    with del show ?thesis
      by (simp add: deleteAllKeysAtPathExcept_def Let_def)
  qed
  have look: "get' (filter (\<lambda>r. \<not> ?doomed r) s) k =
      (case get' s k of None \<Rightarrow> None
       | Some r \<Rightarrow> if path r = p \<and> k \<notin> set exceptKeys then None else Some r)" for k
    by (auto simp: get'_filter [OF inv] split: option.splits dest: get'_key)
  from whole look show ?thesis by simp
qed

theorem deleteAllKeysAtPathExcept_frame_witness:
  "store_inv [textRecord ''/docs/a'' 1 10 ''x'', textRecord ''/docs/b'' 1 20 ''y'',
              textRecord ''/docs/sub/c'' 1 30 ''z'', textRecord ''/q'' 1 40 ''w''] \<and>
   deleteAllKeysAtPathExcept
      [textRecord ''/docs/a'' 1 10 ''x'', textRecord ''/docs/b'' 1 20 ''y'',
       textRecord ''/docs/sub/c'' 1 30 ''z'', textRecord ''/q'' 1 40 ''w''] ''/docs/'' [''/docs/b'']
     = [textRecord ''/docs/b'' 1 20 ''y'', textRecord ''/docs/sub/c'' 1 30 ''z'',
        textRecord ''/q'' 1 40 ''w''] \<and>
   deleteAllKeysAtPathExcept
      [textRecord ''/docs/a'' 1 10 ''x'', textRecord ''/docs/b'' 1 20 ''y'',
       textRecord ''/docs/sub/c'' 1 30 ''z'', textRecord ''/q'' 1 40 ''w''] ''/nowhere/'' []
     = [textRecord ''/docs/a'' 1 10 ''x'', textRecord ''/docs/b'' 1 20 ''y'',
        textRecord ''/docs/sub/c'' 1 30 ''z'', textRecord ''/q'' 1 40 ''w'']"
proof -
  have inv: "store_inv [textRecord ''/docs/a'' 1 10 ''x'', textRecord ''/docs/b'' 1 20 ''y'',
              textRecord ''/docs/sub/c'' 1 30 ''z'', textRecord ''/q'' 1 40 ''w'']"
    by (simp add: store_inv_def textRecord_def)
  from deleteAllKeysAtPathExcept_frame [OF inv, of "''/docs/''" "[''/docs/b'']"]
    deleteAllKeysAtPathExcept_frame [OF inv, of "''/nowhere/''" "[]"] inv
  show ?thesis
    by (simp add: textRecord_def keyToPath_def)
qed

subsection \<open>Theorems: renaming a key\<close>

lemma renameKey_absent:
  "get' s currentKey = None \<Longrightarrow> renameKey now s currentKey nextKey = Inl NoExistingRecord"
  by (simp add: renameKey_def replaceRecordUsingNewKey'_def replaceRecordUsingNewKey_get'_def)

text \<open>
  C5 (the code departs from the claim). The claim: \<open>renameKey\<close> re-stores the record
  under \<open>nextKey\<close> and then renames every descendant key by substituting the prefix. The
  code: \<^verbatim>\<open>_replaceRecordUsingNewKey\<close> puts the record under its new key with
  insert-or-replace and then deletes the old key, and never looks whether the new key is
  taken or is itself a key being renamed. Renaming \<^verbatim>\<open>/a/a\<close> to \<^verbatim>\<open>/a\<close> with the descendants
  \<^verbatim>\<open>/a/a/a/x\<close> and \<^verbatim>\<open>/a/a/x\<close>: the record of \<^verbatim>\<open>/a/a/a/x\<close> is put under \<^verbatim>\<open>/a/a/x\<close>, the key
  that substituting the prefix gives it, and the replacement for the descendant
  \<^verbatim>\<open>/a/a/x\<close> deletes that key. Two descendants go in and one record comes out; nothing is
  stored under \<^verbatim>\<open>/a/a/x\<close>.
\<close>

theorem renameKey_collision_loses_descendant:
  "store_inv [textRecord ''/a/a'' 1 7 ''t'', textRecord ''/a/a/a/x'' 1 3 ''u'',
              textRecord ''/a/a/x'' 1 3 ''u''] \<and>
   prefix (''/a/a'' @ ''/'') ''/a/a/a/x'' \<and>
   changePathOfKey' ''/a/a/a/x'' (''/a/a'' @ ''/'') (''/a'' @ ''/'') = ''/a/a/x'' \<and>
   renameKey 9 [textRecord ''/a/a'' 1 7 ''t'', textRecord ''/a/a/a/x'' 1 3 ''u'',
                textRecord ''/a/a/x'' 1 3 ''u''] ''/a/a'' ''/a''
     = Inr [textRecord ''/a'' 1 9 ''t'', textRecord ''/a/x'' 1 3 ''u''] \<and>
   get' [textRecord ''/a'' 1 9 ''t'', textRecord ''/a/x'' 1 3 ''u''] ''/a/a/x'' = None"
  by (simp add: store_inv_def renameKey_def renamePath'_def getAllKeysMatchingRegex_def
        getAllKeys_def replaceRecordUsingNewKey'_def replaceRecordUsingNewKey_get'_def
        changePathOfKey'_def textRecord_def delete'_def keyToPath_def)

text \<open>
  Two more inputs where the same put-then-delete loses a record. Renaming a key to itself
  puts the record under the key and then deletes that key. Renaming \<^verbatim>\<open>/a\<close> to \<^verbatim>\<open>/a/b\<close>
  while \<^verbatim>\<open>/a/b\<close> is stored puts the record of \<^verbatim>\<open>/a\<close> over the stored descendant, and the
  cascade then moves it on to \<^verbatim>\<open>/a/b/b\<close>.
\<close>

lemma renameKey_to_itself_deletes_record:
  "renameKey 9 [textRecord ''/k'' 1 5 ''a''] ''/k'' ''/k'' = Inr []"
  by (simp add: renameKey_def renamePath'_def getAllKeysMatchingRegex_def
        getAllKeys_def replaceRecordUsingNewKey'_def replaceRecordUsingNewKey_get'_def
        textRecord_def delete'_def)

lemma renameKey_onto_stored_descendant:
  "renameKey 9 [textRecord ''/a'' 1 5 ''A'', textRecord ''/a/b'' 1 6 ''B''] ''/a'' ''/a/b''
     = Inr [textRecord ''/a/b/b'' 1 9 ''A'']"
  by (simp add: renameKey_def renamePath'_def getAllKeysMatchingRegex_def
        getAllKeys_def replaceRecordUsingNewKey'_def replaceRecordUsingNewKey_get'_def
        changePathOfKey'_def textRecord_def delete'_def keyToPath_def)

text \<open>
  The order of the cascade at work: renaming the path \<^verbatim>\<open>/a/\<close> to \<^verbatim>\<open>/a/a/\<close> with
  \<^verbatim>\<open>/a/a/x\<close> and \<^verbatim>\<open>/a/x\<close> stored. The record of \<^verbatim>\<open>/a/x\<close> is put under \<^verbatim>\<open>/a/a/x\<close>, and
  the delete of the old key \<^verbatim>\<open>/a/a/x\<close>, which comes after all the puts, removes it.
\<close>

lemma renamePath_delete_after_puts:
  "renamePath 0 [textRecord ''/a/a/x'' 1 3 ''u'', textRecord ''/a/x'' 1 4 ''v''] ''/a/'' ''/a/a/''
     = Inr [textRecord ''/a/a/a/x'' 1 3 ''u'']"
  by (simp add: renamePath_def renamePath'_def getAllKeysMatchingRegex_def getAllKeys_def
        replaceRecordUsingNewKey_get'_def changePathOfKey'_def textRecord_def delete'_def
        keyToPath_def)

text \<open>
  Where no new key is taken the cascade does what the claim says: the example of the
  specification, \<^verbatim>\<open>/a/b\<close> renamed to \<^verbatim>\<open>/a/z\<close> with two descendants and a bystander.
\<close>

lemma renameKey_example:
  "renameKey 9 [textRecord ''/a/b'' 1 7 ''t'', textRecord ''/a/b/c'' 1 3 ''u'',
                textRecord ''/a/b/d/e'' 1 4 ''v'', textRecord ''/q'' 1 5 ''w''] ''/a/b'' ''/a/z''
     = Inr [textRecord ''/a/z'' 1 9 ''t'', textRecord ''/a/z/c'' 1 3 ''u'',
            textRecord ''/a/z/d/e'' 1 4 ''v'', textRecord ''/q'' 1 5 ''w'']"
  by (simp add: renameKey_def renamePath'_def getAllKeysMatchingRegex_def
        getAllKeys_def replaceRecordUsingNewKey'_def replaceRecordUsingNewKey_get'_def
        changePathOfKey'_def textRecord_def delete'_def keyToPath_def)

end
